theory Spec2Isabelle
  imports Main "HOL-Library.Sublist"
begin

section \<open>Strings as the code uses them\<close>

text \<open>
  A JavaScript string is modelled as a \<open>string\<close> whose characters are its code units;
  a \<open>char\<close> holds the code units below 256. Only the string methods
  that the modelled functions call are defined: \<open>includes\<close> (as \<open>str_includes\<close>),
  \<open>endsWith\<close>, \<open>trim\<close>, \<open>join\<close> and the decimal rendering of a number inside a
  template literal.
\<close>

fun str_includes :: "string \<Rightarrow> string \<Rightarrow> bool" where
  "str_includes [] pat = (pat = [])"
| "str_includes (c # cs) pat = (prefix pat (c # cs) \<or> str_includes cs pat)"

definition endsWith :: "string \<Rightarrow> string \<Rightarrow> bool" where
  "endsWith s pat = suffix pat s"

definition isWhiteSpace :: "char \<Rightarrow> bool" where
  \<comment> \<open>what \<open>trim\<close> strips, the WhiteSpace and LineTerminator code points: of those, tab, line
      feed, vertical tab, form feed, carriage return, space and no-break space (U+00A0) are
      code units below 256; the others (U+1680, U+2000 to U+200A, U+2028, U+2029, U+202F,
      U+205F, U+3000, U+FEFF) are not values of \<open>char\<close>\<close>
  "isWhiteSpace c =
     (c \<in> set [CHR 0x09, CHR 0x0A, CHR 0x0B, CHR 0x0C, CHR 0x0D, CHR '' '', CHR 0xA0])"

definition trim :: "string \<Rightarrow> string" where
  "trim s = rev (dropWhile isWhiteSpace (rev (dropWhile isWhiteSpace s)))"

fun join :: "string \<Rightarrow> string list \<Rightarrow> string" where
  "join sep [] = []"
| "join sep [x] = x"
| "join sep (x # y # ys) = x @ sep @ join sep (y # ys)"

definition digit :: "nat \<Rightarrow> char" where
  "digit d = ''0123456789'' ! d"

fun numberToString :: "nat \<Rightarrow> string" where
  "numberToString n = (if n < 10 then [digit n] else numberToString (n div 10) @ [digit (n mod 10)])"

declare numberToString.simps [simp del]

section \<open>Data model (types.ts)\<close>

text \<open>
  An optional field \<open>f?: T\<close> is a \<open>T option\<close>; \<open>None\<close> is JavaScript's \<open>undefined\<close>.
  The \<open>language\<close> of a segment is declared as a union of four literals, but its value is
  copied unchecked from the parsed response, so it is kept as the string it is at run time.
\<close>

record Attendee =
  attendee_name :: string
  company :: string

text \<open>
  \<open>SegmentData\<close> is a segment as the parsed response carries it (the \<open>s: any\<close> of the
  mapper, read at the type of the response schema); \<open>TranscriptSegment\<close> adds the
  identifier, as \<open>{ ...s, id }\<close> does.
\<close>

record SegmentData =
  timestamp :: string
  speaker :: "string option"
  seg_text :: string
  translatedText :: "string option"
  language :: "string option"

record TranscriptSegment = SegmentData +
  seg_id :: string

record Recording =
  rec_id :: string
  name :: string
  projectName :: string
  subject :: string
  transcript :: "TranscriptSegment list"
  fullText :: string
  dateCreated :: string
  meetingDate :: string
  remarks :: "string option"
  isBookmarked :: "bool option"
  mediaUrl :: "string option"
  attendees :: "Attendee list option"

datatype AppTab = DASHBOARD | KNOWLEDGE_BASE

section \<open>Remote transcription client (services/geminiService.ts)\<close>

text \<open>
  A thrown value is an error object with an optional \<open>message\<close>. The remote call
  \<open>ai.models.generateContent\<close> either rejects with an error or resolves to a response
  whose \<open>text\<close> may be undefined.
\<close>

datatype js_error = JsError (message: "string option")

datatype response = Rejects js_error | Resolves "string option"

text \<open>
  \<open>JSON.parse\<close> is a built-in of the language: it is a parameter \<open>parse\<close> of the model,
  which returns the error it throws or the parsed value. The parsed value is read at the
  type that the response schema declares, with every field that the code guards by
  \<open>||\<close> optional, and with the full-text field that the older schema asked for.
\<close>

record ParsedData =
  data_subject :: "string option"
  data_segments :: "SegmentData list option"
  data_fullText :: "string option"

record MediaResult =
  res_transcript :: "TranscriptSegment list"
  res_fullText :: string
  res_subject :: string

type_synonym json_parse = "string \<Rightarrow> js_error + ParsedData"

definition falsy :: "string option \<Rightarrow> bool" where
  \<comment> \<open>\<open>!text\<close> for a value that is a string or undefined\<close>
  "falsy t = (case t of None \<Rightarrow> True | Some s \<Rightarrow> s = [])"

definition orElse :: "string option \<Rightarrow> string \<Rightarrow> string" where
  \<comment> \<open>\<open>x || d\<close> for a value that is a string or undefined\<close>
  "orElse t d = (case t of None \<Rightarrow> d | Some s \<Rightarrow> if s = [] then d else s)"

definition messageIncludes :: "js_error \<Rightarrow> string \<Rightarrow> bool" where
  \<comment> \<open>\<open>err.message?.includes(pat)\<close>, read as a condition\<close>
  "messageIncludes err pat = (case message err of None \<Rightarrow> False | Some m \<Rightarrow> str_includes m pat)"

definition transient :: "js_error \<Rightarrow> bool" where
  "transient err =
     (messageIncludes err ''500'' \<or> messageIncludes err ''xhr'' \<or> messageIncludes err ''Unterminated'')"

definition emptyResponse :: js_error where
  "emptyResponse = JsError (Some ''Empty response from AI model'')"

definition repair :: "string \<Rightarrow> string" where
  "repair txt =
     (let repairedText = trim txt in
      if \<not> endsWith repairedText ''}''
      then (if \<not> endsWith repairedText '']'' then repairedText @ '']}'' else repairedText @ ''}'')
      else repairedText)"

definition parseResponse :: "json_parse \<Rightarrow> string \<Rightarrow> js_error + ParsedData" where
  \<comment> \<open>the inner \<open>try { JSON.parse(text) } catch { ... JSON.parse(repairedText) }\<close>\<close>
  "parseResponse parse txt =
     (case parse txt of
        Inr data \<Rightarrow> Inr data
      | Inl parseError \<Rightarrow> parse (repair txt))"

definition newSegmentId :: "nat \<Rightarrow> nat \<Rightarrow> string" where
  "newSegmentId idx now = ''seg-'' @ numberToString idx @ ''-'' @ numberToString now"

definition mkSegments :: "(nat \<Rightarrow> nat) \<Rightarrow> SegmentData list \<Rightarrow> TranscriptSegment list" where
  \<comment> \<open>\<open>now idx\<close> is what \<open>Date.now()\<close> returns in the callback for index \<open>idx\<close>\<close>
  "mkSegments now segs =
     map (\<lambda>(idx, s). SegmentData.extend s (TranscriptSegment.fields (newSegmentId idx (now idx))))
         (zip [0 ..< length segs] segs)"

definition newline :: string where
  "newline = [CHR 0x0A]"

definition segmentLine :: "'a SegmentData_scheme \<Rightarrow> string" where
  "segmentLine s = ''['' @ timestamp s @ ''] '' @ orElse (speaker s) ''Speaker'' @ '': '' @ seg_text s"

definition buildResult :: "(nat \<Rightarrow> nat) \<Rightarrow> ParsedData \<Rightarrow> MediaResult" where
  "buildResult now data =
     (let segments = mkSegments now (case data_segments data of None \<Rightarrow> [] | Some ss \<Rightarrow> ss);
          fullText = join newline (map segmentLine segments)
      in \<lparr> res_transcript = segments,
           res_fullText = fullText,
           res_subject = orElse (data_subject data) ''Untitled Recording'' \<rparr>)"

definition attempt :: "json_parse \<Rightarrow> (nat \<Rightarrow> nat) \<Rightarrow> response \<Rightarrow> js_error + MediaResult" where
  \<comment> \<open>the body of the outer \<open>try\<close>: one request and the handling of its response\<close>
  "attempt parse now resp =
     (case resp of
        Rejects err \<Rightarrow> Inl err
      | Resolves t \<Rightarrow>
          if falsy t then Inl emptyResponse
          else (case parseResponse parse (the t) of
                  Inl err \<Rightarrow> Inl err
                | Inr data \<Rightarrow> Inr (buildResult now data)))"

text \<open>
  \<open>generateContent mediaBase64 mimeType k\<close> is the outcome of the \<open>k\<close>-th request sent for
  this media. The result of \<open>processMedia\<close> is paired with the delays (in milliseconds)
  it waited through, one per retry. The clock is read only while a result is built, which
  happens in at most one request of a call, so one \<open>now\<close> serves the whole call.
\<close>

fun processMedia ::
  "json_parse \<Rightarrow> (nat \<Rightarrow> nat) \<Rightarrow> (string \<Rightarrow> string \<Rightarrow> nat \<Rightarrow> response)
     \<Rightarrow> nat \<Rightarrow> string \<Rightarrow> string \<Rightarrow> nat \<Rightarrow> (js_error + MediaResult) \<times> nat list" where
  "processMedia parse now generateContent k mediaBase64 mimeType retries =
     (case attempt parse now (generateContent mediaBase64 mimeType k) of
        Inr result \<Rightarrow> (Inr result, [])
      | Inl err \<Rightarrow>
          if retries > 0 \<and> transient err
          then (case processMedia parse now generateContent (Suc k) mediaBase64 mimeType (retries - 1) of
                  (outcome, delays) \<Rightarrow> (outcome, 3000 # delays))
          else (Inl err, []))"

declare processMedia.simps [simp del]

section \<open>Application state and the processing queue (App.tsx)\<close>

record File =
  file_name :: string
  file_type :: string
  file_data :: string

datatype Status = Pending | Processing | Done | Error

record QueueItem =
  item_id :: string
  item_name :: string
  status :: Status
  progress :: "string option"
  item_projectName :: string
  item_file :: File

text \<open>
  The state of the \<open>App\<close> component that the modelled handlers read or write (the saved
  points, which none of them touches, are left out).
\<close>

record AppState =
  activeTab :: AppTab
  recordings :: "Recording list"
  selectedRecording :: "Recording option"
  processingQueue :: "QueueItem list"
  isProcessingGlobal :: bool

definition addRecording :: "string \<Rightarrow> string \<Rightarrow> Recording \<Rightarrow> AppState \<Rightarrow> Recording \<times> AppState" where
  \<comment> \<open>\<open>uuid\<close> is the result of \<open>crypto.randomUUID()\<close>, \<open>created\<close> of \<open>new Date().toLocaleString()\<close>\<close>
  "addRecording uuid created r s =
     (let newRec = r\<lparr>rec_id := uuid, dateCreated := created\<rparr>
      in (newRec, s\<lparr>recordings := newRec # recordings s\<rparr>))"

definition updateRecording :: "Recording \<Rightarrow> AppState \<Rightarrow> AppState" where
  "updateRecording updatedRec s =
     s\<lparr>recordings := map (\<lambda>r. if rec_id r = rec_id updatedRec then updatedRec else r) (recordings s),
       selectedRecording :=
         (case selectedRecording s of
            None \<Rightarrow> None
          | Some sel \<Rightarrow> if rec_id sel = rec_id updatedRec then Some updatedRec else Some sel)\<rparr>"

definition deleteRecording :: "string \<Rightarrow> AppState \<Rightarrow> AppState" where
  "deleteRecording ident s =
     s\<lparr>recordings := filter (\<lambda>r. rec_id r \<noteq> ident) (recordings s),
       selectedRecording :=
         (case selectedRecording s of
            None \<Rightarrow> None
          | Some sel \<Rightarrow> if rec_id sel = ident then None else Some sel)\<rparr>"

definition handleOpenRecording :: "Recording \<Rightarrow> AppState \<Rightarrow> AppState" where
  "handleOpenRecording r s = s\<lparr>selectedRecording := Some r, activeTab := DASHBOARD\<rparr>"

definition handleStartUpload :: "(nat \<Rightarrow> string) \<Rightarrow> File list \<Rightarrow> string \<Rightarrow> AppState \<Rightarrow> AppState" where
  \<comment> \<open>\<open>uuid i\<close> is the result of \<open>crypto.randomUUID()\<close> in the callback for the \<open>i\<close>-th file\<close>
  "handleStartUpload uuid files pname s =
     (let newItems =
            map (\<lambda>(i, f). \<lparr> item_id = uuid i, item_name = file_name f, status = Pending,
                            progress = None, item_projectName = pname, item_file = f \<rparr>)
                (zip [0 ..< length files] files)
      in s\<lparr>processingQueue := processingQueue s @ newItems, activeTab := DASHBOARD\<rparr>)"

definition setStatus :: "string \<Rightarrow> Status \<Rightarrow> QueueItem list \<Rightarrow> QueueItem list" where
  \<comment> \<open>\<open>prev.map(q => q.id === item.id ? { ...q, status } : q)\<close>\<close>
  "setStatus ident st prev = map (\<lambda>q. if item_id q = ident then q\<lparr>status := st\<rparr> else q) prev"

text \<open>
  \<open>processQueueItem\<close> is asynchronous. Its first statement runs at once
  (\<open>processQueueItem_start\<close>); the rest runs when reading the file and \<open>processMedia\<close>
  have settled (\<open>processQueueItem_settle\<close>), with their outcome, the values of the
  environment calls it makes (\<open>randomUUID\<close>, the two date strings, \<open>createObjectURL\<close>) and
  the length of the queue in the render whose effect started it.
\<close>

definition processQueueItem_start :: "QueueItem \<Rightarrow> AppState \<Rightarrow> AppState" where
  "processQueueItem_start item s =
     s\<lparr>processingQueue := setStatus (item_id item) Processing (processingQueue s)\<rparr>"

record Environment =
  env_uuid :: string
  env_localeString :: string
  env_localeDateString :: string
  env_objectUrl :: string

definition processQueueItem_settle ::
  "QueueItem \<Rightarrow> nat \<Rightarrow> js_error + MediaResult \<Rightarrow> Environment \<Rightarrow> AppState \<Rightarrow> AppState" where
  "processQueueItem_settle item queueLength outcome env s =
     (case outcome of
        Inr result \<Rightarrow>
          (case addRecording (env_uuid env) (env_localeString env)
                  \<lparr> rec_id = [], name = file_name (item_file item), projectName = item_projectName item,
                    subject = res_subject result, transcript = res_transcript result,
                    fullText = res_fullText result, dateCreated = [],
                    meetingDate = env_localeDateString env, remarks = None, isBookmarked = None,
                    mediaUrl = Some (env_objectUrl env), attendees = None \<rparr> s of
             (newRec, s1) \<Rightarrow>
               (let s2 = s1\<lparr>processingQueue := setStatus (item_id item) Done (processingQueue s1)\<rparr>
                in if queueLength = 1 then s2\<lparr>selectedRecording := Some newRec\<rparr> else s2))
      | Inl err \<Rightarrow>
          s\<lparr>processingQueue := setStatus (item_id item) Error (processingQueue s)\<rparr>)"

definition hasStatus :: "Status \<Rightarrow> QueueItem \<Rightarrow> bool" where
  "hasStatus st q = (status q = st)"

definition schedulerEffect :: "AppState \<Rightarrow> AppState" where
  \<comment> \<open>the state updates of the scheduling \<open>useEffect\<close>\<close>
  "schedulerEffect s =
     (let nextItem = find (hasStatus Pending) (processingQueue s) in
      if nextItem \<noteq> None \<and> \<not> list_ex (hasStatus Processing) (processingQueue s)
      then processQueueItem_start (the nextItem) (s\<lparr>isProcessingGlobal := True\<rparr>)
      else if nextItem = None \<and> \<not> list_ex (hasStatus Processing) (processingQueue s)
      then s\<lparr>isProcessingGlobal := False\<rparr>
      else s)"

definition timerArmed :: "AppState \<Rightarrow> bool" where
  \<comment> \<open>the render in which the effect sets the five-second timer\<close>
  "timerArmed s =
     (find (hasStatus Pending) (processingQueue s) = None
      \<and> \<not> list_ex (hasStatus Processing) (processingQueue s)
      \<and> list_ex (\<lambda>q. status q = Done \<or> status q = Error) (processingQueue s)
      \<and> \<not> isProcessingGlobal s)"

definition clearQueue :: "AppState \<Rightarrow> AppState" where
  "clearQueue s = s\<lparr>processingQueue := []\<rparr>"

text \<open>
  The events that write the queue. An upload is enabled when the identifiers it draws are
  new (what \<open>crypto.randomUUID\<close> promises); the timer fires only in a state that armed it,
  since any change of the queue cancels it. The effect and the settling of a started item
  are not constrained further: every interleaving of the four is a run.
\<close>

datatype event =
    Upload "nat \<Rightarrow> string" "File list" string
  | Effect
  | Settled QueueItem nat "js_error + MediaResult" Environment
  | Timer

definition freshIds :: "string list \<Rightarrow> QueueItem list \<Rightarrow> bool" where
  "freshIds ids q = (distinct ids \<and> (\<forall>i \<in> set ids. i \<notin> set (map item_id q)))"

fun fire :: "event \<Rightarrow> AppState \<Rightarrow> AppState option" where
  "fire (Upload uuid files pname) s =
     (if freshIds (map uuid [0 ..< length files]) (processingQueue s)
      then Some (handleStartUpload uuid files pname s) else None)"
| "fire Effect s = Some (schedulerEffect s)"
| "fire (Settled item queueLength outcome env) s =
     Some (processQueueItem_settle item queueLength outcome env s)"
| "fire Timer s = (if timerArmed s then Some (clearQueue s) else None)"

fun run :: "event list \<Rightarrow> AppState \<Rightarrow> AppState option" where
  "run [] s = Some s"
| "run (e # es) s = (case fire e s of None \<Rightarrow> None | Some s' \<Rightarrow> run es s')"

section \<open>Knowledge base and dashboard handlers\<close>

definition truthy :: "bool option \<Rightarrow> bool" where
  "truthy b = (case b of None \<Rightarrow> False | Some v \<Rightarrow> v)"

definition toggleBookmark :: "Recording \<Rightarrow> AppState \<Rightarrow> AppState" where
  \<comment> \<open>KnowledgeBase's handler, with \<open>onUpdateRecording\<close> bound to \<open>updateRecording\<close>\<close>
  "toggleBookmark r s = updateRecording (r\<lparr>isBookmarked := Some (\<not> truthy (isBookmarked r))\<rparr>) s"

record DashboardState =
  activeRecording :: "Recording option"
  dash_transcript :: "TranscriptSegment list"
  dash_fullText :: string
  editingSpeakerId :: "string option"

definition templateOpt :: "string option \<Rightarrow> string" where
  \<comment> \<open>an optional string inside a template literal\<close>
  "templateOpt t = (case t of None \<Rightarrow> ''undefined'' | Some s \<Rightarrow> s)"

definition renameLine :: "TranscriptSegment \<Rightarrow> string" where
  "renameLine s = ''['' @ timestamp s @ ''] '' @ templateOpt (speaker s) @ '': '' @ seg_text s"

definition handleRenameSpeaker ::
  "string \<Rightarrow> string \<Rightarrow> DashboardState \<Rightarrow> DashboardState \<times> Recording option" where
  \<comment> \<open>the second component is the argument of the call to \<open>onUpdateRecording\<close>, if it is made\<close>
  "handleRenameSpeaker segmentId newName d =
     (if trim newName = [] then (d\<lparr>editingSpeakerId := None\<rparr>, None)
      else
        (let updatedTranscript =
               map (\<lambda>seg.
                      let oldName = (case find (\<lambda>s. seg_id s = segmentId) (dash_transcript d) of
                                       None \<Rightarrow> None | Some s \<Rightarrow> speaker s)
                      in if speaker seg = oldName then seg\<lparr>speaker := Some newName\<rparr> else seg)
                   (dash_transcript d);
             newFullText = join newline (map renameLine updatedTranscript)
         in (d\<lparr>dash_transcript := updatedTranscript, dash_fullText := newFullText,
               editingSpeakerId := None\<rparr>,
             (case activeRecording d of
                None \<Rightarrow> None
              | Some r \<Rightarrow> Some (r\<lparr>transcript := updatedTranscript, fullText := newFullText\<rparr>)))))"

section \<open>The specification's wording, for comparison\<close>

text \<open>
  The line the specification gives for a segment of the full text,
  \<open>[timestamp] speaker: text\<close>, with the segment's own speaker label printed as it is
  (a segment without a label has nothing to print there).
\<close>

definition claimedLine :: "TranscriptSegment \<Rightarrow> string" where
  "claimedLine s =
     ''['' @ timestamp s @ ''] '' @ (case speaker s of None \<Rightarrow> [] | Some l \<Rightarrow> l) @ '': '' @ seg_text s"

text \<open>A parser that also reports a full-text field, whatever \<open>ft\<close> says it is.\<close>

definition supplyFullText :: "(string \<Rightarrow> string option) \<Rightarrow> json_parse \<Rightarrow> json_parse" where
  "supplyFullText ft parse s =
     (case parse s of Inl e \<Rightarrow> Inl e | Inr d \<Rightarrow> Inr (d\<lparr>data_fullText := ft s\<rparr>))"

section \<open>Example inputs\<close>

definition fixedClock :: "nat \<Rightarrow> nat" where
  "fixedClock idx = 1700000000000"

definition truncatedText :: string where
  \<open>truncatedText = ''{"subject":"Budget''\<close>

definition completeText :: string where
  \<open>completeText = ''{"subject":"Budget","segments":[]}''\<close>

definition paddedText :: string where
  \<comment> \<open>the complete response followed by a no-break space\<close>
  "paddedText = completeText @ [CHR 0xA0]"

definition budgetData :: ParsedData where
  "budgetData = \<lparr> data_subject = Some ''Budget'', data_segments = Some [], data_fullText = None \<rparr>"

text \<open>
  \<open>JSON.parse\<close> on the texts of the examples: the complete response parses; the truncated
  one, cut inside a string, is rejected with the engine's message for an unterminated
  string, and so is its repair, since the appended brackets land inside that string; the
  padded one is rejected, a no-break space being no white space of JSON.
\<close>

definition sampleParse :: json_parse where
  "sampleParse s =
     (if s = completeText then Inr budgetData
      else if s = truncatedText
      then Inl (JsError (Some ''Unterminated string in JSON at position 18 (line 1 column 19)''))
      else if s = truncatedText @ '']}''
      then Inl (JsError (Some ''Unterminated string in JSON at position 20 (line 1 column 21)''))
      else if s = paddedText
      then Inl (JsError (Some ''Unexpected non-whitespace character after JSON at position 34''))
      else Inl (JsError (Some ''Unexpected end of JSON input'')))"

definition truncatedThenComplete :: "string \<Rightarrow> string \<Rightarrow> nat \<Rightarrow> response" where
  "truncatedThenComplete mediaBase64 mimeType k =
     (if k = 0 then Resolves (Some truncatedText) else Resolves (Some completeText))"

definition serverError :: js_error where
  "serverError = JsError (Some ''got status: 500 Internal Server Error'')"

definition invalidKey :: js_error where
  "invalidKey = JsError (Some ''API key not valid. Please pass a valid API key.'')"

definition alwaysRejects :: "js_error \<Rightarrow> string \<Rightarrow> string \<Rightarrow> nat \<Rightarrow> response" where
  "alwaysRejects err mediaBase64 mimeType k = Rejects err"

definition rejectsThenComplete :: "string \<Rightarrow> string \<Rightarrow> nat \<Rightarrow> response" where
  "rejectsThenComplete mediaBase64 mimeType k =
     (if k = 0 then Rejects serverError else Resolves (Some completeText))"

definition rejectsTwiceThenComplete :: "string \<Rightarrow> string \<Rightarrow> nat \<Rightarrow> response" where
  "rejectsTwiceThenComplete mediaBase64 mimeType k =
     (if k = 0 then Rejects serverError
      else if k = 1 then Rejects invalidKey
      else Resolves (Some completeText))"

definition alwaysResolves :: "string option \<Rightarrow> string \<Rightarrow> string \<Rightarrow> nat \<Rightarrow> response" where
  "alwaysResolves t mediaBase64 mimeType k = Resolves t"

definition unlabelledData :: ParsedData where
  "unlabelledData =
     \<lparr> data_subject = Some ''Call'',
       data_segments = Some [\<lparr> timestamp = ''00:01'', speaker = Some [], seg_text = ''Hello'',
                               translatedText = None, language = Some ''English'' \<rparr>],
       data_fullText = None \<rparr>"

definition unlabelledParse :: json_parse where
  "unlabelledParse s = Inr unlabelledData"

definition meetingData :: ParsedData where
  "meetingData =
     \<lparr> data_subject = Some ''Site visit'',
       data_segments = Some [\<lparr> timestamp = ''00:01'', speaker = Some ''Caller'', seg_text = ''Hello'',
                               translatedText = None, language = Some ''English'' \<rparr>,
                             \<lparr> timestamp = ''00:05'', speaker = None, seg_text = ''Namaste'',
                               translatedText = Some ''Greetings'', language = Some ''Hindi'' \<rparr>],
       data_fullText = Some ''Hello Namaste'' \<rparr>"

definition meetingParse :: json_parse where
  "meetingParse s = Inr meetingData"

definition initialState :: AppState where
  "initialState = \<lparr> activeTab = DASHBOARD, recordings = [], selectedRecording = None,
                      processingQueue = [], isProcessingGlobal = False \<rparr>"

definition callFile :: File where
  "callFile = \<lparr> file_name = ''call.mp3'', file_type = ''audio/mpeg'', file_data = ''QUJD'' \<rparr>"

definition visitFile :: File where
  "visitFile = \<lparr> file_name = ''visit.mp4'', file_type = ''video/mp4'', file_data = ''REVG'' \<rparr>"

definition sampleUuid :: "nat \<Rightarrow> string" where
  "sampleUuid i = ''uuid-'' @ numberToString i"

definition sampleEnv :: Environment where
  "sampleEnv = \<lparr> env_uuid = ''uuid-rec'', env_localeString = ''11/3/2026, 9:00:00 AM'',
                   env_localeDateString = ''11/3/2026'', env_objectUrl = ''blob:1'' \<rparr>"

definition callItem :: QueueItem where
  "callItem = \<lparr> item_id = ''uuid-0'', item_name = ''call.mp3'', status = Pending, progress = None,
                  item_projectName = ''Alpha'', item_file = callFile \<rparr>"

definition sampleEvents :: "event list" where
  "sampleEvents =
     [Upload sampleUuid [callFile, visitFile] ''Alpha'', Effect,
      Settled callItem 2 (Inr (buildResult fixedClock meetingData)) sampleEnv, Effect]"

definition settledEvents :: "event list" where
  "settledEvents =
     [Upload sampleUuid [callFile, visitFile] ''Alpha'', Effect,
      Settled callItem 2 (Inr (buildResult fixedClock meetingData)) sampleEnv]"

definition sampleTranscript :: "TranscriptSegment list" where
  "sampleTranscript =
     [\<lparr> timestamp = ''00:01'', speaker = Some ''Speaker 1'', seg_text = ''Hello'',
        translatedText = None, language = Some ''English'', seg_id = ''seg-0-17'' \<rparr>,
      \<lparr> timestamp = ''00:05'', speaker = Some ''Speaker 2'', seg_text = ''Namaste'',
        translatedText = Some ''Greetings'', language = Some ''Hindi'', seg_id = ''seg-1-17'' \<rparr>,
      \<lparr> timestamp = ''00:09'', speaker = Some ''Speaker 1'', seg_text = ''Shall we start'',
        translatedText = None, language = Some ''English'', seg_id = ''seg-2-17'' \<rparr>]"

definition sampleRecording :: Recording where
  "sampleRecording =
     \<lparr> rec_id = ''uuid-rec'', name = ''call.mp3'', projectName = ''Alpha'', subject = ''Site visit'',
       transcript = sampleTranscript,
       fullText = ''[00:01] Speaker 1: Hello'' @ newline @ ''[00:05] Speaker 2: Namaste''
                    @ newline @ ''[00:09] Speaker 1: Shall we start'',
       dateCreated = ''11/3/2026, 9:00:00 AM'', meetingDate = ''11/3/2026'', remarks = None,
       isBookmarked = None, mediaUrl = Some ''blob:1'', attendees = None \<rparr>"

definition otherRecording :: Recording where
  "otherRecording = sampleRecording\<lparr>rec_id := ''uuid-old'', name := ''visit.mp4'', isBookmarked := Some True\<rparr>"

definition sampleDashboard :: DashboardState where
  "sampleDashboard =
     \<lparr> activeRecording = Some sampleRecording, dash_transcript = sampleTranscript,
       dash_fullText = fullText sampleRecording, editingSpeakerId = Some ''seg-0-17'' \<rparr>"

definition storeState :: AppState where
  "storeState = initialState\<lparr>recordings := [sampleRecording, otherRecording],
                              selectedRecording := Some otherRecording\<rparr>"

section \<open>The queue invariant\<close>

definition queueInv :: "QueueItem list \<Rightarrow> bool" where
  "queueInv q = (distinct (map item_id q) \<and> length (filter (hasStatus Processing) q) \<le> 1)"

section \<open>Properties of the transcription client\<close>

lemma processMedia_success:
  "attempt parse now (g m t k) = Inr r \<Longrightarrow> processMedia parse now g k m t retries = (Inr r, [])"
  by (simp add: processMedia.simps)

lemma processMedia_fatal:
  "attempt parse now (g m t k) = Inl e \<Longrightarrow> \<not> transient e \<Longrightarrow>
   processMedia parse now g k m t retries = (Inl e, [])"
  by (simp add: processMedia.simps)

lemma processMedia_exhausted:
  "attempt parse now (g m t k) = Inl e \<Longrightarrow> processMedia parse now g k m t 0 = (Inl e, [])"
  by (simp add: processMedia.simps)

lemma processMedia_retry:
  "attempt parse now (g m t k) = Inl e \<Longrightarrow> transient e \<Longrightarrow>
   processMedia parse now g k m t (Suc n) =
     (fst (processMedia parse now g (Suc k) m t n), 3000 # snd (processMedia parse now g (Suc k) m t n))"
  by (simp add: processMedia.simps split: prod.splits)

lemma processMedia_delays_bound:
  "length (snd (processMedia parse now g k m t retries)) \<le> retries"
proof (induction retries arbitrary: k)
  case 0
  show ?case by (simp add: processMedia.simps split: sum.splits)
next
  case (Suc n)
  show ?case
  proof (cases "attempt parse now (g m t k)")
    case (Inr r)
    then show ?thesis by (simp add: processMedia_success)
  next
    case (Inl e)
    show ?thesis
    proof (cases "transient e")
      case True
      with Inl Suc [of "Suc k"] show ?thesis by (simp add: processMedia_retry)
    next
      case False
      with Inl show ?thesis by (simp add: processMedia_fatal)
    qed
  qed
qed

lemma emptyResponse_not_transient: "\<not> transient emptyResponse"
  by (simp add: transient_def messageIncludes_def emptyResponse_def)

lemma serverError_transient: "transient serverError"
  by (simp add: transient_def messageIncludes_def serverError_def)

lemma invalidKey_not_transient: "\<not> transient invalidKey"
  by (simp add: transient_def messageIncludes_def invalidKey_def)

lemma attempt_empty: "falsy t \<Longrightarrow> attempt parse now (Resolves t) = Inl emptyResponse"
  by (simp add: attempt_def)

lemma truncatedText_nonempty: "truncatedText \<noteq> []"
  by (simp add: truncatedText_def)

lemma completeText_nonempty: "completeText \<noteq> []"
  by (simp add: completeText_def)

lemma repair_truncatedText: "repair truncatedText = truncatedText @ '']}''"
  by code_simp

lemma sampleParse_truncated:
  "sampleParse truncatedText
     = Inl (JsError (Some ''Unterminated string in JSON at position 18 (line 1 column 19)''))"
  by (simp add: sampleParse_def truncatedText_def completeText_def)

lemma sampleParse_repaired:
  "sampleParse (repair truncatedText)
     = Inl (JsError (Some ''Unterminated string in JSON at position 20 (line 1 column 21)''))"
  unfolding repair_truncatedText by (simp add: sampleParse_def truncatedText_def completeText_def)

lemma sampleParse_complete: "sampleParse completeText = Inr budgetData"
  by (simp add: sampleParse_def)

lemma attempt_truncated:
  "attempt sampleParse fixedClock (Resolves (Some truncatedText))
     = Inl (JsError (Some ''Unterminated string in JSON at position 20 (line 1 column 21)''))"
  by (simp add: attempt_def falsy_def parseResponse_def truncatedText_nonempty
        sampleParse_truncated sampleParse_repaired)

lemma attempt_complete:
  "attempt sampleParse fixedClock (Resolves (Some completeText)) = Inr (buildResult fixedClock budgetData)"
  by (simp add: attempt_def falsy_def parseResponse_def completeText_nonempty sampleParse_complete)

lemma transient_unterminated:
  "transient (JsError (Some ''Unterminated string in JSON at position 20 (line 1 column 21)''))"
  by (simp add: transient_def messageIncludes_def)

text \<open>
  C6. If the response of the remote call has no text or an empty one, \<open>processMedia\<close>
  fails at once with the empty-response error and waits through no retry delay, whatever
  the number of retries left.
\<close>

theorem empty_response_fatal:
  assumes "generateContent mediaBase64 mimeType k = Resolves t" and "falsy t"
  shows "processMedia parse now generateContent k mediaBase64 mimeType retries = (Inl emptyResponse, [])"
  using assms by (simp add: processMedia.simps attempt_empty emptyResponse_not_transient)

theorem empty_response_fatal_witness:
  "alwaysResolves (Some []) ''QUJD'' ''audio/mpeg'' 0 = Resolves (Some [])
   \<and> falsy (Some [])
   \<and> processMedia sampleParse fixedClock (alwaysResolves (Some [])) 0 ''QUJD'' ''audio/mpeg'' 2
       = (Inl emptyResponse, [])"
  using empty_response_fatal [of "alwaysResolves (Some [])" "''QUJD''" "''audio/mpeg''" 0 "Some []"
      sampleParse fixedClock 2]
  by (simp add: falsy_def alwaysResolves_def)

text \<open>
  C2. For every request of a call, \<open>processMedia\<close> returns a success at once, fails at once
  on an error that is not transient (its message contains none of the patterns) or when
  no retry is left, and otherwise waits 3000 ms and goes on with the next request and one
  retry less; so it never waits through more delays than it has retries. With the
  default of two retries: a transient error followed by a success returns that success
  after exactly one delay; a transient error on each of two requests and an error on the
  third fail the call with the third error after exactly two delays (three requests).
\<close>

theorem processMedia_bounded_retry:
  "(attempt parse now (g m t k) = Inr r \<longrightarrow> processMedia parse now g k m t retries = (Inr r, []))
   \<and> (attempt parse now (g m t k) = Inl e \<and> \<not> transient e
        \<longrightarrow> processMedia parse now g k m t retries = (Inl e, []))
   \<and> (attempt parse now (g m t k) = Inl e \<longrightarrow> processMedia parse now g k m t 0 = (Inl e, []))
   \<and> (attempt parse now (g m t k) = Inl e \<and> transient e
        \<longrightarrow> processMedia parse now g k m t (Suc n) =
              (fst (processMedia parse now g (Suc k) m t n),
               3000 # snd (processMedia parse now g (Suc k) m t n)))
   \<and> length (snd (processMedia parse now g k m t retries)) \<le> retries
   \<and> (attempt parse now (g m t k) = Inl e0 \<and> transient e0 \<and> attempt parse now (g m t (k + 1)) = Inr r
        \<longrightarrow> processMedia parse now g k m t 2 = (Inr r, [3000]))
   \<and> (attempt parse now (g m t k) = Inl e0 \<and> transient e0
        \<and> attempt parse now (g m t (k + 1)) = Inl e1 \<and> transient e1
        \<and> attempt parse now (g m t (k + 2)) = Inl e2
        \<longrightarrow> processMedia parse now g k m t 2 = (Inl e2, [3000, 3000]))"
proof (intro conjI impI)
  assume "attempt parse now (g m t k) = Inr r"
  then show "processMedia parse now g k m t retries = (Inr r, [])"
    by (rule processMedia_success)
next
  assume "attempt parse now (g m t k) = Inl e \<and> \<not> transient e"
  then show "processMedia parse now g k m t retries = (Inl e, [])"
    by (simp add: processMedia_fatal)
next
  assume "attempt parse now (g m t k) = Inl e"
  then show "processMedia parse now g k m t 0 = (Inl e, [])"
    by (rule processMedia_exhausted)
next
  assume "attempt parse now (g m t k) = Inl e \<and> transient e"
  then show "processMedia parse now g k m t (Suc n) =
              (fst (processMedia parse now g (Suc k) m t n),
               3000 # snd (processMedia parse now g (Suc k) m t n))"
    by (simp add: processMedia_retry)
next
  show "length (snd (processMedia parse now g k m t retries)) \<le> retries"
    by (rule processMedia_delays_bound)
next
  assume a: "attempt parse now (g m t k) = Inl e0 \<and> transient e0 \<and> attempt parse now (g m t (k + 1)) = Inr r"
  have two: "(2::nat) = Suc (Suc 0)" by simp
  from a have "processMedia parse now g (Suc k) m t (Suc 0) = (Inr r, [])"
    by (simp add: processMedia_success)
  with a show "processMedia parse now g k m t 2 = (Inr r, [3000])"
    unfolding two by (simp add: processMedia_retry)
next
  assume a: "attempt parse now (g m t k) = Inl e0 \<and> transient e0
        \<and> attempt parse now (g m t (k + 1)) = Inl e1 \<and> transient e1
        \<and> attempt parse now (g m t (k + 2)) = Inl e2"
  have two: "(2::nat) = Suc (Suc 0)" by simp
  from a have "attempt parse now (g m t (Suc (Suc k))) = Inl e2" by simp
  then have last: "processMedia parse now g (Suc (Suc k)) m t 0 = (Inl e2, [])"
    by (rule processMedia_exhausted)
  from a have "processMedia parse now g (Suc k) m t (Suc 0) = (Inl e2, [3000])"
    by (simp add: processMedia_retry last)
  with a show "processMedia parse now g k m t 2 = (Inl e2, [3000, 3000])"
    unfolding two by (simp add: processMedia_retry)
qed

theorem processMedia_bounded_retry_witness:
  "(attempt sampleParse fixedClock (alwaysResolves (Some completeText) ''QUJD'' ''audio/mpeg'' 0)
        = Inr (buildResult fixedClock budgetData)
      \<and> processMedia sampleParse fixedClock (alwaysResolves (Some completeText)) 0 ''QUJD'' ''audio/mpeg'' 2
          = (Inr (buildResult fixedClock budgetData), []))
   \<and> (attempt sampleParse fixedClock (alwaysRejects invalidKey ''QUJD'' ''audio/mpeg'' 0) = Inl invalidKey
      \<and> \<not> transient invalidKey
      \<and> processMedia sampleParse fixedClock (alwaysRejects invalidKey) 0 ''QUJD'' ''audio/mpeg'' 2
          = (Inl invalidKey, []))
   \<and> (attempt sampleParse fixedClock (alwaysRejects serverError ''QUJD'' ''audio/mpeg'' 2) = Inl serverError
      \<and> processMedia sampleParse fixedClock (alwaysRejects serverError) 2 ''QUJD'' ''audio/mpeg'' 0
          = (Inl serverError, []))
   \<and> (attempt sampleParse fixedClock (rejectsTwiceThenComplete ''QUJD'' ''audio/mpeg'' 0) = Inl serverError
      \<and> transient serverError
      \<and> attempt sampleParse fixedClock (rejectsTwiceThenComplete ''QUJD'' ''audio/mpeg'' 1) = Inl invalidKey
      \<and> processMedia sampleParse fixedClock rejectsTwiceThenComplete 0 ''QUJD'' ''audio/mpeg'' 2
          = (Inl invalidKey, [3000]))
   \<and> (attempt sampleParse fixedClock (rejectsThenComplete ''QUJD'' ''audio/mpeg'' 0) = Inl serverError
      \<and> attempt sampleParse fixedClock (rejectsThenComplete ''QUJD'' ''audio/mpeg'' 1)
          = Inr (buildResult fixedClock budgetData)
      \<and> processMedia sampleParse fixedClock rejectsThenComplete 0 ''QUJD'' ''audio/mpeg'' 2
          = (Inr (buildResult fixedClock budgetData), [3000]))
   \<and> (attempt sampleParse fixedClock (alwaysRejects serverError ''QUJD'' ''audio/mpeg'' 0) = Inl serverError
      \<and> attempt sampleParse fixedClock (alwaysRejects serverError ''QUJD'' ''audio/mpeg'' 1) = Inl serverError
      \<and> processMedia sampleParse fixedClock (alwaysRejects serverError) 0 ''QUJD'' ''audio/mpeg'' 2
          = (Inl serverError, [3000, 3000]))"
proof -
  have ok: "attempt sampleParse fixedClock (alwaysResolves (Some completeText) ''QUJD'' ''audio/mpeg'' 0)
        = Inr (buildResult fixedClock budgetData)"
    by (simp add: alwaysResolves_def attempt_complete)
  have rej: "\<And>err k. attempt sampleParse fixedClock (alwaysRejects err ''QUJD'' ''audio/mpeg'' k) = Inl err"
    by (simp add: attempt_def alwaysRejects_def)
  have first: "attempt sampleParse fixedClock (rejectsThenComplete ''QUJD'' ''audio/mpeg'' 0) = Inl serverError"
    by (simp add: attempt_def rejectsThenComplete_def)
  have second: "attempt sampleParse fixedClock (rejectsThenComplete ''QUJD'' ''audio/mpeg'' 1)
                  = Inr (buildResult fixedClock budgetData)"
    by (simp add: rejectsThenComplete_def attempt_complete)
  have t0: "attempt sampleParse fixedClock (rejectsTwiceThenComplete ''QUJD'' ''audio/mpeg'' 0) = Inl serverError"
    by (simp add: attempt_def rejectsTwiceThenComplete_def)
  have t1: "attempt sampleParse fixedClock (rejectsTwiceThenComplete ''QUJD'' ''audio/mpeg'' 1) = Inl invalidKey"
    by (simp add: attempt_def rejectsTwiceThenComplete_def)
  note facts = ok rej first second t0 t1 serverError_transient invalidKey_not_transient
  from facts
    processMedia_bounded_retry [of sampleParse fixedClock "alwaysResolves (Some completeText)" "''QUJD''"
      "''audio/mpeg''" 0 "buildResult fixedClock budgetData" 2]
  have w1: "processMedia sampleParse fixedClock (alwaysResolves (Some completeText)) 0 ''QUJD'' ''audio/mpeg'' 2
          = (Inr (buildResult fixedClock budgetData), [])"
    by simp
  from facts
    processMedia_bounded_retry [of sampleParse fixedClock "alwaysRejects invalidKey" "''QUJD''"
      "''audio/mpeg''" 0 _ 2 invalidKey]
  have w2: "processMedia sampleParse fixedClock (alwaysRejects invalidKey) 0 ''QUJD'' ''audio/mpeg'' 2
          = (Inl invalidKey, [])"
    by simp
  from facts
    processMedia_bounded_retry [of sampleParse fixedClock "alwaysRejects serverError" "''QUJD''"
      "''audio/mpeg''" 2 _ _ serverError]
  have w3: "processMedia sampleParse fixedClock (alwaysRejects serverError) 2 ''QUJD'' ''audio/mpeg'' 0
          = (Inl serverError, [])"
    by simp
  from facts
    processMedia_bounded_retry [of sampleParse fixedClock rejectsTwiceThenComplete "''QUJD''"
      "''audio/mpeg''" "Suc 0" _ "Suc 0" invalidKey]
  have w4a: "processMedia sampleParse fixedClock rejectsTwiceThenComplete (Suc 0) ''QUJD'' ''audio/mpeg'' (Suc 0)
          = (Inl invalidKey, [])"
    by simp
  from facts
    processMedia_bounded_retry [of sampleParse fixedClock rejectsTwiceThenComplete "''QUJD''"
      "''audio/mpeg''" 0 _ _ serverError "Suc 0"]
  have "processMedia sampleParse fixedClock rejectsTwiceThenComplete 0 ''QUJD'' ''audio/mpeg'' (Suc (Suc 0))
          = (Inl invalidKey, [3000])"
    by (simp add: w4a)
  then have w4: "processMedia sampleParse fixedClock rejectsTwiceThenComplete 0 ''QUJD'' ''audio/mpeg'' 2
          = (Inl invalidKey, [3000])"
    by (simp add: numeral_2_eq_2)
  from facts
    processMedia_bounded_retry [of sampleParse fixedClock rejectsThenComplete "''QUJD''"
      "''audio/mpeg''" 0 "buildResult fixedClock budgetData" _ _ _ serverError]
  have w5: "processMedia sampleParse fixedClock rejectsThenComplete 0 ''QUJD'' ''audio/mpeg'' 2
          = (Inr (buildResult fixedClock budgetData), [3000])"
    by simp
  from facts
    processMedia_bounded_retry [of sampleParse fixedClock "alwaysRejects serverError" "''QUJD''"
      "''audio/mpeg''" 0 _ _ _ _ serverError serverError serverError]
  have w6: "processMedia sampleParse fixedClock (alwaysRejects serverError) 0 ''QUJD'' ''audio/mpeg'' 2
          = (Inl serverError, [3000, 3000])"
    by simp
  from facts w1 w2 w3 w4 w5 w6 show ?thesis by simp
qed

lemma attempt_result: "attempt parse now resp = Inr r \<Longrightarrow> \<exists>d. r = buildResult now d"
  by (auto simp: attempt_def split: response.splits if_splits sum.splits)

lemma processMedia_result:
  "processMedia parse now g k m t retries = (Inr r, ds) \<Longrightarrow> \<exists>d. r = buildResult now d"
proof (induction retries arbitrary: k ds)
  case 0
  then show ?case
    by (auto simp: processMedia.simps split: sum.splits dest: attempt_result)
next
  case (Suc n)
  show ?case
  proof (cases "attempt parse now (g m t k)")
    case (Inr r')
    with Suc.prems have "r = r'" by (simp add: processMedia_success)
    with Inr show ?thesis by (auto dest: attempt_result)
  next
    case (Inl e)
    show ?thesis
    proof (cases "transient e")
      case True
      with Inl Suc.prems
      have "processMedia parse now g (Suc k) m t n = (Inr r, snd (processMedia parse now g (Suc k) m t n))"
        by (simp add: processMedia_retry prod_eq_iff)
      then show ?thesis by (rule Suc.IH)
    next
      case False
      with Inl Suc.prems show ?thesis by (simp add: processMedia_fatal)
    qed
  qed
qed

lemma buildResult_fullText:
  "res_fullText (buildResult now d) = join newline (map segmentLine (res_transcript (buildResult now d)))"
  by (simp add: buildResult_def Let_def)

lemma segmentLine_format:
  "segmentLine = (\<lambda>s. ''['' @ timestamp s @ ''] '' @
      (case speaker s of None \<Rightarrow> ''Speaker'' | Some l \<Rightarrow> if l = [] then ''Speaker'' else l)
      @ '': '' @ seg_text s)"
  by (rule ext) (simp add: segmentLine_def orElse_def)

lemma buildResult_ignores_fullText: "buildResult now (d\<lparr>data_fullText := x\<rparr>) = buildResult now d"
  by (simp add: buildResult_def)

lemma attempt_ignores_fullText:
  "attempt (supplyFullText ft parse) now resp = attempt parse now resp"
  by (auto simp: attempt_def parseResponse_def supplyFullText_def buildResult_ignores_fullText
           split: response.splits sum.splits)

lemma processMedia_ignores_fullText:
  "processMedia (supplyFullText ft parse) now g k m t retries = processMedia parse now g k m t retries"
proof (induction retries arbitrary: k)
  case 0
  show ?case by (simp add: processMedia.simps attempt_ignores_fullText split: sum.splits)
next
  case (Suc n)
  show ?case
    by (subst (1 2) processMedia.simps) (simp add: attempt_ignores_fullText Suc split: sum.splits)
qed

text \<open>
  C3 (as amended). For every successful result of \<open>processMedia\<close>, the full text is the
  lines \<open>[timestamp] label: text\<close> of the returned segments, in order and joined by
  newlines, where the label is the segment's speaker, or the word \<open>Speaker\<close> when the
  segment has no speaker or an empty one; and the outcome of \<open>processMedia\<close> is the same
  whatever full-text field the parsed response carries.
\<close>

theorem fullText_derived_locally:
  "(processMedia parse now g k m t retries = (Inr r, ds) \<longrightarrow>
      res_fullText r =
        join newline
          (map (\<lambda>s. ''['' @ timestamp s @ ''] '' @
                     (case speaker s of None \<Rightarrow> ''Speaker'' | Some l \<Rightarrow> if l = [] then ''Speaker'' else l)
                     @ '': '' @ seg_text s)
               (res_transcript r)))
   \<and> processMedia (supplyFullText ft parse) now g k m t retries
       = processMedia parse now g k m t retries"
proof (intro conjI impI)
  assume "processMedia parse now g k m t retries = (Inr r, ds)"
  then obtain d where "r = buildResult now d" by (blast dest: processMedia_result)
  then have "res_fullText r = join newline (map segmentLine (res_transcript r))"
    by (simp add: buildResult_fullText)
  then show "res_fullText r =
        join newline
          (map (\<lambda>s. ''['' @ timestamp s @ ''] '' @
                     (case speaker s of None \<Rightarrow> ''Speaker'' | Some l \<Rightarrow> if l = [] then ''Speaker'' else l)
                     @ '': '' @ seg_text s)
               (res_transcript r))"
    by (simp add: segmentLine_format)
next
  show "processMedia (supplyFullText ft parse) now g k m t retries
       = processMedia parse now g k m t retries"
    by (rule processMedia_ignores_fullText)
qed

theorem fullText_derived_locally_witness:
  "processMedia meetingParse fixedClock (alwaysResolves (Some completeText)) 0 ''QUJD'' ''audio/mpeg'' 2
     = (Inr (buildResult fixedClock meetingData), [])
   \<and> res_fullText (buildResult fixedClock meetingData)
       = ''[00:01] Caller: Hello'' @ newline @ ''[00:05] Speaker: Namaste''"
proof -
  have run: "processMedia meetingParse fixedClock (alwaysResolves (Some completeText)) 0 ''QUJD'' ''audio/mpeg'' 2
     = (Inr (buildResult fixedClock meetingData), [])"
    by (rule processMedia_success)
       (simp add: attempt_def alwaysResolves_def falsy_def completeText_nonempty parseResponse_def
          meetingParse_def)
  have segs: "map (\<lambda>s. (timestamp s, speaker s, seg_text s)) (res_transcript (buildResult fixedClock meetingData))
     = [(''00:01'', Some ''Caller'', ''Hello''), (''00:05'', None, ''Namaste'')]"
    by (simp add: buildResult_def mkSegments_def meetingData_def upt_rec
          SegmentData.extend_def TranscriptSegment.fields_def)
  from run fullText_derived_locally [of meetingParse fixedClock "alwaysResolves (Some completeText)"
      0 "''QUJD''" "''audio/mpeg''" 2 "buildResult fixedClock meetingData" "[]"]
  have "res_fullText (buildResult fixedClock meetingData) =
        join newline
          (map (\<lambda>s. ''['' @ timestamp s @ ''] '' @
                     (case speaker s of None \<Rightarrow> ''Speaker'' | Some l \<Rightarrow> if l = [] then ''Speaker'' else l)
                     @ '': '' @ seg_text s)
               (res_transcript (buildResult fixedClock meetingData)))"
    by simp
  also have "\<dots> = join newline
          (map (\<lambda>(ts, sp, tx). ''['' @ ts @ ''] '' @
                     (case sp of None \<Rightarrow> ''Speaker'' | Some l \<Rightarrow> if l = [] then ''Speaker'' else l)
                     @ '': '' @ tx)
               (map (\<lambda>s. (timestamp s, speaker s, seg_text s))
                    (res_transcript (buildResult fixedClock meetingData))))"
    by (simp add: comp_def)
  also have "\<dots> = ''[00:01] Caller: Hello'' @ newline @ ''[00:05] Speaker: Namaste''"
    unfolding segs by simp
  finally show ?thesis using run by simp
qed

text \<open>
  The claim as the specification words it fails on a segment whose speaker label is
  empty: the full text names it \<open>Speaker\<close>, the segment's own label is the empty string.
\<close>

theorem fullText_claimed_counterexample:
  "processMedia unlabelledParse fixedClock (alwaysResolves (Some completeText)) 0 ''QUJD'' ''audio/mpeg'' 2
     = (Inr (buildResult fixedClock unlabelledData), [])
   \<and> res_fullText (buildResult fixedClock unlabelledData) = ''[00:01] Speaker: Hello''
   \<and> join newline (map claimedLine (res_transcript (buildResult fixedClock unlabelledData)))
       = ''[00:01] : Hello''
   \<and> res_fullText (buildResult fixedClock unlabelledData)
       \<noteq> join newline (map claimedLine (res_transcript (buildResult fixedClock unlabelledData)))"
proof -
  have run: "processMedia unlabelledParse fixedClock (alwaysResolves (Some completeText)) 0 ''QUJD'' ''audio/mpeg'' 2
     = (Inr (buildResult fixedClock unlabelledData), [])"
    by (rule processMedia_success)
       (simp add: attempt_def alwaysResolves_def falsy_def completeText_nonempty parseResponse_def
          unlabelledParse_def)
  have code: "res_fullText (buildResult fixedClock unlabelledData) = ''[00:01] Speaker: Hello''"
    by (simp add: buildResult_def mkSegments_def unlabelledData_def segmentLine_def orElse_def
          SegmentData.extend_def TranscriptSegment.fields_def)
  have claimed: "join newline (map claimedLine (res_transcript (buildResult fixedClock unlabelledData)))
       = ''[00:01] : Hello''"
    by (simp add: buildResult_def mkSegments_def unlabelledData_def claimedLine_def
          SegmentData.extend_def TranscriptSegment.fields_def)
  from run code claimed show ?thesis by simp
qed

lemma attempt_malformed:
  "txt \<noteq> [] \<Longrightarrow> parse txt = Inl e1 \<Longrightarrow>
   attempt parse now (Resolves (Some txt)) =
     (case parse (repair txt) of Inl e2 \<Rightarrow> Inl e2 | Inr d \<Rightarrow> Inr (buildResult now d))"
  by (simp add: attempt_def falsy_def parseResponse_def)

lemma paddedText_nonempty: "paddedText \<noteq> []"
  by (simp add: paddedText_def)

lemma repair_paddedText: "repair paddedText = completeText"
  by code_simp

lemma sampleParse_padded:
  "sampleParse paddedText
     = Inl (JsError (Some ''Unexpected non-whitespace character after JSON at position 34''))"
  by (simp add: sampleParse_def paddedText_def truncatedText_def completeText_def)

text \<open>
  C7 (as amended). For a response with a non-empty text that fails to parse, the text is
  repaired once: trimmed, and closed with \<open>]}\<close> when it ends with neither \<open>}\<close> nor \<open>]\<close>,
  with \<open>}\<close> when it ends with \<open>]\<close>, left as it is when it ends with \<open>}\<close>; the repaired text
  is parsed, and the outcome of the request is the outcome of that one parse. When it
  succeeds, the call returns the result built from it, without a delay. When it fails
  too, its error fails the call without a delay unless a retry is left and the message of
  the error contains one of the transient patterns; then the call waits and sends the
  request again.
\<close>

theorem malformed_response_one_repair:
  assumes "g m t k = Resolves (Some txt)" and "txt \<noteq> []" and "parse txt = Inl e1"
  shows "repair txt =
           trim txt @ (if endsWith (trim txt) ''}'' then []
                       else if endsWith (trim txt) '']'' then ''}'' else '']}'')
         \<and> attempt parse now (g m t k) =
             (case parse (repair txt) of Inl e2 \<Rightarrow> Inl e2 | Inr d \<Rightarrow> Inr (buildResult now d))
         \<and> (\<forall>e2. parse (repair txt) = Inl e2 \<longrightarrow>
               processMedia parse now g k m t retries =
                 (if retries > 0 \<and> transient e2
                  then (fst (processMedia parse now g (Suc k) m t (retries - 1)),
                        3000 # snd (processMedia parse now g (Suc k) m t (retries - 1)))
                  else (Inl e2, [])))
         \<and> (\<forall>d. parse (repair txt) = Inr d \<longrightarrow>
               processMedia parse now g k m t retries = (Inr (buildResult now d), []))"
proof (intro conjI allI impI)
  show "repair txt =
           trim txt @ (if endsWith (trim txt) ''}'' then []
                       else if endsWith (trim txt) '']'' then ''}'' else '']}'')"
    by (simp add: repair_def Let_def)
next
  from assms show "attempt parse now (g m t k) =
             (case parse (repair txt) of Inl e2 \<Rightarrow> Inl e2 | Inr d \<Rightarrow> Inr (buildResult now d))"
    by (simp add: attempt_malformed)
next
  fix e2 assume "parse (repair txt) = Inl e2"
  with assms have a: "attempt parse now (g m t k) = Inl e2"
    by (simp add: attempt_malformed)
  show "processMedia parse now g k m t retries =
                 (if retries > 0 \<and> transient e2
                  then (fst (processMedia parse now g (Suc k) m t (retries - 1)),
                        3000 # snd (processMedia parse now g (Suc k) m t (retries - 1)))
                  else (Inl e2, []))"
  proof (cases "retries > 0 \<and> transient e2")
    case True
    then obtain n where "retries = Suc n" by (cases retries) auto
    with True a show ?thesis by (simp add: processMedia_retry)
  next
    case False
    then show ?thesis
    proof (cases retries)
      case 0
      with a show ?thesis by (simp add: processMedia_exhausted)
    next
      case (Suc n)
      with False a show ?thesis by (simp add: processMedia_fatal)
    qed
  qed
next
  fix d assume "parse (repair txt) = Inr d"
  with assms have "attempt parse now (g m t k) = Inr (buildResult now d)"
    by (simp add: attempt_malformed)
  then show "processMedia parse now g k m t retries = (Inr (buildResult now d), [])"
    by (rule processMedia_success)
qed

theorem malformed_response_one_repair_witness:
  "(truncatedThenComplete ''QUJD'' ''audio/mpeg'' 0 = Resolves (Some truncatedText)
      \<and> truncatedText \<noteq> []
      \<and> sampleParse truncatedText
          = Inl (JsError (Some ''Unterminated string in JSON at position 18 (line 1 column 19)''))
      \<and> sampleParse (repair truncatedText)
          = Inl (JsError (Some ''Unterminated string in JSON at position 20 (line 1 column 21)''))
      \<and> processMedia sampleParse fixedClock truncatedThenComplete 0 ''QUJD'' ''audio/mpeg'' 0
          = (Inl (JsError (Some ''Unterminated string in JSON at position 20 (line 1 column 21)'')), []))
   \<and> (alwaysResolves (Some paddedText) ''QUJD'' ''audio/mpeg'' 0 = Resolves (Some paddedText)
      \<and> paddedText \<noteq> []
      \<and> sampleParse paddedText
          = Inl (JsError (Some ''Unexpected non-whitespace character after JSON at position 34''))
      \<and> repair paddedText = completeText
      \<and> sampleParse (repair paddedText) = Inr budgetData
      \<and> attempt sampleParse fixedClock (alwaysResolves (Some paddedText) ''QUJD'' ''audio/mpeg'' 0)
          = Inr (buildResult fixedClock budgetData)
      \<and> processMedia sampleParse fixedClock (alwaysResolves (Some paddedText)) 0 ''QUJD'' ''audio/mpeg'' 2
          = (Inr (buildResult fixedClock budgetData), []))"
proof -
  have h1: "truncatedThenComplete ''QUJD'' ''audio/mpeg'' 0 = Resolves (Some truncatedText)"
    by (simp add: truncatedThenComplete_def)
  from h1 truncatedText_nonempty sampleParse_truncated
    malformed_response_one_repair [of truncatedThenComplete "''QUJD''" "''audio/mpeg''" 0
      truncatedText sampleParse _ fixedClock 0]
  have a: "processMedia sampleParse fixedClock truncatedThenComplete 0 ''QUJD'' ''audio/mpeg'' 0
       = (Inl (JsError (Some ''Unterminated string in JSON at position 20 (line 1 column 21)'')), [])"
    by (simp add: sampleParse_repaired)
  have h2: "alwaysResolves (Some paddedText) ''QUJD'' ''audio/mpeg'' 0 = Resolves (Some paddedText)"
    by (simp add: alwaysResolves_def)
  from h2 paddedText_nonempty sampleParse_padded
    malformed_response_one_repair [of "alwaysResolves (Some paddedText)" "''QUJD''" "''audio/mpeg''" 0
      paddedText sampleParse _ fixedClock 0]
  have b: "attempt sampleParse fixedClock (alwaysResolves (Some paddedText) ''QUJD'' ''audio/mpeg'' 0)
          = Inr (buildResult fixedClock budgetData)"
    by (simp add: repair_paddedText sampleParse_complete)
  have p: "sampleParse (repair paddedText) = Inr budgetData"
    by (simp add: repair_paddedText sampleParse_complete)
  from h2 paddedText_nonempty sampleParse_padded p
    malformed_response_one_repair [of "alwaysResolves (Some paddedText)" "''QUJD''" "''audio/mpeg''" 0
      paddedText sampleParse _ fixedClock 2]
  have c: "processMedia sampleParse fixedClock (alwaysResolves (Some paddedText)) 0 ''QUJD'' ''audio/mpeg'' 2
          = (Inr (buildResult fixedClock budgetData), [])"
    by simp
  from a b c p h1 h2 truncatedText_nonempty paddedText_nonempty sampleParse_truncated sampleParse_repaired
    sampleParse_padded repair_paddedText
  show ?thesis by simp
qed

text \<open>
  The claim as the specification words it fails on a response cut inside a string: the
  repaired text is rejected as well, with a message that counts as transient, and the call
  is not failed but sent again, here with success.
\<close>

theorem malformed_fatal_counterexample:
  "truncatedThenComplete ''QUJD'' ''audio/mpeg'' 0 = Resolves (Some truncatedText)
   \<and> sampleParse truncatedText
       = Inl (JsError (Some ''Unterminated string in JSON at position 18 (line 1 column 19)''))
   \<and> sampleParse (repair truncatedText)
       = Inl (JsError (Some ''Unterminated string in JSON at position 20 (line 1 column 21)''))
   \<and> processMedia sampleParse fixedClock truncatedThenComplete 0 ''QUJD'' ''audio/mpeg'' 2
       = (Inr (buildResult fixedClock budgetData), [3000])"
proof (intro conjI)
  show "truncatedThenComplete ''QUJD'' ''audio/mpeg'' 0 = Resolves (Some truncatedText)"
    by (simp add: truncatedThenComplete_def)
  show "sampleParse truncatedText
       = Inl (JsError (Some ''Unterminated string in JSON at position 18 (line 1 column 19)''))"
    by (rule sampleParse_truncated)
  show "sampleParse (repair truncatedText)
       = Inl (JsError (Some ''Unterminated string in JSON at position 20 (line 1 column 21)''))"
    by (rule sampleParse_repaired)
  have two: "(2::nat) = Suc (Suc 0)" by simp
  have later: "processMedia sampleParse fixedClock truncatedThenComplete (Suc 0) ''QUJD'' ''audio/mpeg'' (Suc 0)
          = (Inr (buildResult fixedClock budgetData), [])"
    by (rule processMedia_success) (simp add: truncatedThenComplete_def attempt_complete)
  have first: "attempt sampleParse fixedClock (truncatedThenComplete ''QUJD'' ''audio/mpeg'' 0)
          = Inl (JsError (Some ''Unterminated string in JSON at position 20 (line 1 column 21)''))"
    by (simp add: truncatedThenComplete_def attempt_truncated)
  show "processMedia sampleParse fixedClock truncatedThenComplete 0 ''QUJD'' ''audio/mpeg'' 2
       = (Inr (buildResult fixedClock budgetData), [3000])"
    using first transient_unterminated later unfolding two by (simp add: processMedia_retry)
qed

section \<open>Properties of the processing queue\<close>

lemma map_item_id_setStatus: "map item_id (setStatus ident st q) = map item_id q"
  by (induction q) (simp_all add: setStatus_def)

lemma length_setStatus: "length (setStatus ident st q) = length q"
  by (simp add: setStatus_def)

lemma distinct_filter_id:
  "distinct (map item_id q) \<Longrightarrow> length (filter (\<lambda>x. item_id x = ident) q) \<le> 1"
proof (induction q)
  case Nil
  show ?case by simp
next
  case (Cons a q)
  show ?case
  proof (cases "item_id a = ident")
    case True
    with Cons.prems have "ident \<notin> item_id ` set q" by simp
    then have "\<forall>x \<in> set q. item_id x \<noteq> ident" by blast
    then have "filter (\<lambda>x. item_id x = ident) q = []" by (simp add: filter_empty_conv)
    with True show ?thesis by simp
  next
    case False
    with Cons show ?thesis by simp
  qed
qed

lemma filter_processing_setStatus_start:
  "filter (hasStatus Processing) (setStatus ident Processing q)
     = map (\<lambda>x. x\<lparr>status := Processing\<rparr>) (filter (\<lambda>x. item_id x = ident \<or> hasStatus Processing x) q)"
  by (induction q) (simp_all add: setStatus_def hasStatus_def)

lemma filter_processing_setStatus_other:
  "st \<noteq> Processing \<Longrightarrow>
   filter (hasStatus Processing) (setStatus ident st q)
     = filter (\<lambda>x. item_id x \<noteq> ident \<and> hasStatus Processing x) q"
  by (induction q) (simp_all add: setStatus_def hasStatus_def)

lemma queueInv_start:
  assumes "queueInv q" and "\<not> list_ex (hasStatus Processing) q"
  shows "queueInv (setStatus ident Processing q)"
proof -
  from assms(2) have "filter (\<lambda>x. item_id x = ident \<or> hasStatus Processing x) q
      = filter (\<lambda>x. item_id x = ident) q"
    by (intro filter_cong) (auto simp: list_ex_iff)
  with assms(1) distinct_filter_id [of q ident] show ?thesis
    by (simp add: queueInv_def map_item_id_setStatus filter_processing_setStatus_start)
qed

lemma queueInv_settle:
  assumes "queueInv q" and "st \<noteq> Processing"
  shows "queueInv (setStatus ident st q)"
proof -
  have "length (filter (\<lambda>x. item_id x \<noteq> ident \<and> hasStatus Processing x) q)
          \<le> length (filter (hasStatus Processing) q)"
  proof (induction q)
    case Nil show ?case by simp
  next
    case (Cons a q) then show ?case by auto
  qed
  with assms show ?thesis
    by (simp add: queueInv_def map_item_id_setStatus filter_processing_setStatus_other)
qed

lemma newItems_ids:
  "map item_id (map (\<lambda>(i, f). \<lparr> item_id = uuid i, item_name = file_name f, status = Pending,
                            progress = None, item_projectName = pname, item_file = f \<rparr>)
                (zip [0 ..< length files] files)) = map uuid [0 ..< length files]"
  by (rule nth_equalityI) simp_all

lemma newItems_pending:
  "filter (hasStatus Processing) (map (\<lambda>(i, f). \<lparr> item_id = uuid i, item_name = file_name f, status = Pending,
                            progress = None, item_projectName = pname, item_file = f \<rparr>)
                (zip [0 ..< length files] files)) = []"
  by (auto simp: filter_empty_conv hasStatus_def)

lemma queueInv_upload:
  assumes "queueInv (processingQueue s)"
    and "freshIds (map uuid [0 ..< length files]) (processingQueue s)"
  shows "queueInv (processingQueue (handleStartUpload uuid files pname s))"
  using assms
  by (force simp: queueInv_def handleStartUpload_def Let_def newItems_ids newItems_pending freshIds_def
            simp del: map_map)

lemma queueInv_effect:
  assumes "queueInv (processingQueue s)"
  shows "queueInv (processingQueue (schedulerEffect s))"
  using assms
  by (simp add: schedulerEffect_def Let_def processQueueItem_start_def queueInv_start)

lemma processingQueue_settle:
  "processingQueue (processQueueItem_settle item n outcome env s)
     = setStatus (item_id item) (case outcome of Inl e \<Rightarrow> Error | Inr r \<Rightarrow> Done) (processingQueue s)"
  by (simp add: processQueueItem_settle_def addRecording_def Let_def split: sum.splits)

lemma queueInv_fire:
  assumes "queueInv (processingQueue s)" and "fire e s = Some s'"
  shows "queueInv (processingQueue s')"
proof (cases e)
  case (Upload uuid files pname)
  with assms show ?thesis by (auto simp: queueInv_upload split: if_splits)
next
  case Effect
  with assms show ?thesis by (auto simp: queueInv_effect)
next
  case (Settled item n outcome env)
  with assms show ?thesis
    by (auto simp: processingQueue_settle queueInv_settle split: sum.splits)
next
  case Timer
  with assms show ?thesis by (auto simp: clearQueue_def queueInv_def split: if_splits)
qed

lemma queueInv_run:
  "queueInv (processingQueue s) \<Longrightarrow> run es s = Some s' \<Longrightarrow> queueInv (processingQueue s')"
proof (induction es arbitrary: s)
  case Nil
  then show ?case by simp
next
  case (Cons e es)
  then show ?case by (auto split: option.splits dest: queueInv_fire)
qed

lemma sample_ids: "map sampleUuid [0 ..< 2] = [''uuid-0'', ''uuid-1'']"
  by (simp add: sampleUuid_def upt_rec numberToString.simps digit_def)

lemma run_sample:
  "run sampleEvents initialState \<noteq> None
   \<and> map status (processingQueue (the (run sampleEvents initialState))) = [Done, Processing]"
  by (simp add: sampleEvents_def initialState_def freshIds_def handleStartUpload_def sample_ids
        schedulerEffect_def processQueueItem_start_def processQueueItem_settle_def addRecording_def
        setStatus_def hasStatus_def callItem_def callFile_def visitFile_def upt_rec sampleUuid_def
        numberToString.simps digit_def Let_def)

text \<open>
  C1. In every state that a run of queue events reaches from a state with an empty queue,
  at most one item is processing; and the scheduling effect leaves the queue as it is
  whenever an item is processing, so it starts an item only when none is.
\<close>

theorem at_most_one_processing:
  "(processingQueue s0 = [] \<and> run es s0 = Some s
      \<longrightarrow> length (filter (hasStatus Processing) (processingQueue s)) \<le> 1)
   \<and> (list_ex (hasStatus Processing) (processingQueue s1)
      \<longrightarrow> processingQueue (schedulerEffect s1) = processingQueue s1)"
proof (intro conjI impI)
  assume a: "processingQueue s0 = [] \<and> run es s0 = Some s"
  then have "queueInv (processingQueue s0)" by (simp add: queueInv_def)
  with a have "queueInv (processingQueue s)" by (blast intro: queueInv_run)
  then show "length (filter (hasStatus Processing) (processingQueue s)) \<le> 1"
    by (simp add: queueInv_def)
next
  assume "list_ex (hasStatus Processing) (processingQueue s1)"
  then show "processingQueue (schedulerEffect s1) = processingQueue s1"
    by (simp add: schedulerEffect_def Let_def)
qed

lemma list_ex_status: "list_ex (hasStatus st) q = (st \<in> set (map status q))"
  by (induction q) (auto simp: hasStatus_def)

theorem at_most_one_processing_witness:
  "processingQueue initialState = []
   \<and> run sampleEvents initialState = Some (the (run sampleEvents initialState))
   \<and> map status (processingQueue (the (run sampleEvents initialState))) = [Done, Processing]
   \<and> length (filter (hasStatus Processing) (processingQueue (the (run sampleEvents initialState)))) \<le> 1
   \<and> list_ex (hasStatus Processing) (processingQueue (the (run sampleEvents initialState)))
   \<and> processingQueue (schedulerEffect (the (run sampleEvents initialState)))
       = processingQueue (the (run sampleEvents initialState))"
proof -
  have e: "processingQueue initialState = []" by (simp add: initialState_def)
  from run_sample have r: "run sampleEvents initialState = Some (the (run sampleEvents initialState))"
    by simp
  have m: "map status (processingQueue (the (run sampleEvents initialState))) = [Done, Processing]"
    using run_sample by simp
  have p: "list_ex (hasStatus Processing) (processingQueue (the (run sampleEvents initialState)))"
    by (simp only: list_ex_status m) simp
  from at_most_one_processing [of initialState sampleEvents "the (run sampleEvents initialState)"
      "the (run sampleEvents initialState)"] e r p
  have "length (filter (hasStatus Processing) (processingQueue (the (run sampleEvents initialState)))) \<le> 1
     \<and> processingQueue (schedulerEffect (the (run sampleEvents initialState)))
       = processingQueue (the (run sampleEvents initialState))"
    by blast
  with e r m p show ?thesis by blast
qed

text \<open>
  C4. \<open>handleStartUpload\<close> keeps the items already in the queue as they are and appends
  one item per file, in the order of the files: each is pending, carries the project name
  and its file, and is named after the file. The function is total: there is no input on
  which it fails.
\<close>

theorem handleStartUpload_appends:
  "take (length (processingQueue s)) (processingQueue (handleStartUpload uuid files pname s)) = processingQueue s
   \<and> length (processingQueue (handleStartUpload uuid files pname s)) = length (processingQueue s) + length files
   \<and> map status (drop (length (processingQueue s)) (processingQueue (handleStartUpload uuid files pname s)))
       = replicate (length files) Pending
   \<and> map item_projectName (drop (length (processingQueue s)) (processingQueue (handleStartUpload uuid files pname s)))
       = replicate (length files) pname
   \<and> map item_file (drop (length (processingQueue s)) (processingQueue (handleStartUpload uuid files pname s)))
       = files
   \<and> map item_name (drop (length (processingQueue s)) (processingQueue (handleStartUpload uuid files pname s)))
       = map file_name files"
  by (auto simp: handleStartUpload_def Let_def intro!: nth_equalityI)

lemma find_first:
  "list_ex P xs \<Longrightarrow>
     find P xs = Some (xs ! length (takeWhile (Not \<circ> P) xs))
     \<and> length (takeWhile (Not \<circ> P) xs) < length xs
     \<and> P (xs ! length (takeWhile (Not \<circ> P) xs))"
  by (induction xs) auto

lemma before_first: "j < length (takeWhile (Not \<circ> P) xs) \<Longrightarrow> \<not> P (xs ! j)"
  using nth_mem [of j "takeWhile (Not \<circ> P) xs"] set_takeWhileD [of "xs ! j" "Not \<circ> P" xs]
  by (simp add: takeWhile_nth)

lemma setStatus_update:
  assumes "distinct (map item_id q)" and "i < length q"
  shows "setStatus (item_id (q ! i)) st q = q[i := (q ! i)\<lparr>status := st\<rparr>]"
proof (rule nth_equalityI)
  show "length (setStatus (item_id (q ! i)) st q) = length (q[i := (q ! i)\<lparr>status := st\<rparr>])"
    by (simp add: setStatus_def)
next
  fix j assume "j < length (setStatus (item_id (q ! i)) st q)"
  then have j: "j < length q" by (simp add: setStatus_def)
  with assms have "item_id (q ! j) = item_id (q ! i) \<longleftrightarrow> j = i"
    using nth_eq_iff_index_eq [of "map item_id q" j i] by simp
  with j assms(2) show "setStatus (item_id (q ! i)) st q ! j = q[i := (q ! i)\<lparr>status := st\<rparr>] ! j"
    by (auto simp: setStatus_def nth_list_update)
qed

lemma run_settled:
  "run settledEvents initialState \<noteq> None
   \<and> map status (processingQueue (the (run settledEvents initialState))) = [Done, Pending]"
  by (simp add: settledEvents_def initialState_def freshIds_def handleStartUpload_def sample_ids
        schedulerEffect_def processQueueItem_start_def processQueueItem_settle_def addRecording_def
        setStatus_def hasStatus_def callItem_def callFile_def visitFile_def upt_rec sampleUuid_def
        numberToString.simps digit_def Let_def)

lemma schedulerEffect_first_pending:
  assumes "distinct (map item_id (processingQueue s))"
    and "\<not> list_ex (hasStatus Processing) (processingQueue s)"
    and "list_ex (hasStatus Pending) (processingQueue s)"
  shows "length (takeWhile (Not \<circ> hasStatus Pending) (processingQueue s)) < length (processingQueue s)
    \<and> status (processingQueue s ! length (takeWhile (Not \<circ> hasStatus Pending) (processingQueue s))) = Pending
    \<and> (\<forall>j < length (takeWhile (Not \<circ> hasStatus Pending) (processingQueue s)).
          status (processingQueue s ! j) \<noteq> Pending)
    \<and> processingQueue (schedulerEffect s) =
        (processingQueue s)
          [length (takeWhile (Not \<circ> hasStatus Pending) (processingQueue s)) :=
             (processingQueue s ! length (takeWhile (Not \<circ> hasStatus Pending) (processingQueue s)))
               \<lparr>status := Processing\<rparr>]"
proof -
  let ?q = "processingQueue s"
  let ?i = "length (takeWhile (Not \<circ> hasStatus Pending) ?q)"
  from assms(3) have f: "find (hasStatus Pending) ?q = Some (?q ! ?i)" and i: "?i < length ?q"
    and p: "hasStatus Pending (?q ! ?i)"
    using find_first [of "hasStatus Pending" ?q] by simp_all
  have b: "\<forall>j < ?i. status (?q ! j) \<noteq> Pending"
    using before_first [of _ "hasStatus Pending" ?q] by (auto simp: hasStatus_def)
  from f assms(2) have "processingQueue (schedulerEffect s) = setStatus (item_id (?q ! ?i)) Processing ?q"
    by (simp add: schedulerEffect_def Let_def processQueueItem_start_def)
  with assms(1) i have "processingQueue (schedulerEffect s) = ?q[?i := (?q ! ?i)\<lparr>status := Processing\<rparr>]"
    by (simp add: setStatus_update)
  with i p b show ?thesis by (simp add: hasStatus_def)
qed

text \<open>
  C5. In every state that a run of queue events reaches from a state with an empty queue,
  if no item is processing and some item is pending, the scheduling effect turns the first
  pending item of the queue, and no other item, to processing: no item before it is
  pending, and the queue changes at its position only.
\<close>

theorem scheduler_fifo:
  assumes "processingQueue s0 = []" and "run es s0 = Some s"
    and "\<not> list_ex (hasStatus Processing) (processingQueue s)"
    and "list_ex (hasStatus Pending) (processingQueue s)"
  shows "length (takeWhile (Not \<circ> hasStatus Pending) (processingQueue s)) < length (processingQueue s)
    \<and> status (processingQueue s ! length (takeWhile (Not \<circ> hasStatus Pending) (processingQueue s))) = Pending
    \<and> (\<forall>j < length (takeWhile (Not \<circ> hasStatus Pending) (processingQueue s)).
          status (processingQueue s ! j) \<noteq> Pending)
    \<and> processingQueue (schedulerEffect s) =
        (processingQueue s)
          [length (takeWhile (Not \<circ> hasStatus Pending) (processingQueue s)) :=
             (processingQueue s ! length (takeWhile (Not \<circ> hasStatus Pending) (processingQueue s)))
               \<lparr>status := Processing\<rparr>]"
proof -
  from assms(1) have "queueInv (processingQueue s0)" by (simp add: queueInv_def)
  with assms(2) have "queueInv (processingQueue s)" by (blast intro: queueInv_run)
  then have "distinct (map item_id (processingQueue s))" by (simp add: queueInv_def)
  from this assms(3,4) show ?thesis by (rule schedulerEffect_first_pending)
qed

theorem scheduler_fifo_witness:
  "processingQueue initialState = []
   \<and> run settledEvents initialState = Some (the (run settledEvents initialState))
   \<and> map status (processingQueue (the (run settledEvents initialState))) = [Done, Pending]
   \<and> \<not> list_ex (hasStatus Processing) (processingQueue (the (run settledEvents initialState)))
   \<and> list_ex (hasStatus Pending) (processingQueue (the (run settledEvents initialState)))
   \<and> length (takeWhile (Not \<circ> hasStatus Pending) (processingQueue (the (run settledEvents initialState)))) = 1
   \<and> map status (processingQueue (schedulerEffect (the (run settledEvents initialState)))) = [Done, Processing]"
proof -
  let ?s = "the (run settledEvents initialState)"
  have e: "processingQueue initialState = []" by (simp add: initialState_def)
  from run_settled have r: "run settledEvents initialState = Some ?s" by simp
  have m: "map status (processingQueue ?s) = [Done, Pending]" using run_settled by simp
  have h3: "\<not> list_ex (hasStatus Processing) (processingQueue ?s)"
    by (simp only: list_ex_status m) simp
  have h4: "list_ex (hasStatus Pending) (processingQueue ?s)"
    by (simp only: list_ex_status m) simp
  have i: "length (takeWhile (Not \<circ> hasStatus Pending) (processingQueue ?s)) = 1"
  proof -
    have "length (takeWhile (Not \<circ> hasStatus Pending) (processingQueue ?s))
            = length (takeWhile (\<lambda>st. st \<noteq> Pending) (map status (processingQueue ?s)))"
      by (simp add: takeWhile_map comp_def hasStatus_def)
    with m show ?thesis by simp
  qed
  from scheduler_fifo [OF e r h3 h4]
  have "processingQueue (schedulerEffect ?s) = (processingQueue ?s)[1 := (processingQueue ?s ! 1)\<lparr>status := Processing\<rparr>]"
    unfolding i by simp
  then have "map status (processingQueue (schedulerEffect ?s)) = (map status (processingQueue ?s))[1 := Processing]"
    by (simp add: map_update)
  with m have "map status (processingQueue (schedulerEffect ?s)) = [Done, Processing]" by simp
  with e r m h3 h4 i show ?thesis by blast
qed

section \<open>Properties of the dashboard and the knowledge store\<close>

lemma renameLine_format:
  "renameLine = (\<lambda>s. ''['' @ timestamp s @ ''] ''
                       @ (case speaker s of None \<Rightarrow> ''undefined'' | Some l \<Rightarrow> l)
                       @ '': '' @ seg_text s)"
  by (rule ext) (simp add: renameLine_def templateOpt_def)

text \<open>
  C8 (as amended). A new name that is blank (empty once trimmed) cancels the rename:
  \<open>handleRenameSpeaker\<close> only closes the editor, and no segment, full text or Recording
  changes. Otherwise, when the anchor is the segment that the given identifier finds in
  the dashboard's transcript, the speaker of every segment whose speaker equals the
  anchor's is set to the new name and every other segment is left as it is; the full text
  is rebuilt from the updated segments, and an open Recording is handed to
  \<open>onUpdateRecording\<close> with that transcript and full text.
\<close>

theorem rename_speaker:
  "(trim newName = []
      \<longrightarrow> handleRenameSpeaker segmentId newName d = (d\<lparr>editingSpeakerId := None\<rparr>, None))
   \<and> (trim newName \<noteq> [] \<and> find (\<lambda>s. seg_id s = segmentId) (dash_transcript d) = Some anchor
      \<longrightarrow> dash_transcript (fst (handleRenameSpeaker segmentId newName d))
           = map (\<lambda>seg. if speaker seg = speaker anchor then seg\<lparr>speaker := Some newName\<rparr> else seg)
                 (dash_transcript d)
         \<and> dash_fullText (fst (handleRenameSpeaker segmentId newName d))
             = join newline (map (\<lambda>s. ''['' @ timestamp s @ ''] ''
                                        @ (case speaker s of None \<Rightarrow> ''undefined'' | Some l \<Rightarrow> l)
                                        @ '': '' @ seg_text s)
                                 (dash_transcript (fst (handleRenameSpeaker segmentId newName d))))
         \<and> activeRecording (fst (handleRenameSpeaker segmentId newName d)) = activeRecording d
         \<and> editingSpeakerId (fst (handleRenameSpeaker segmentId newName d)) = None
         \<and> snd (handleRenameSpeaker segmentId newName d)
             = map_option (\<lambda>r. r\<lparr>transcript := dash_transcript (fst (handleRenameSpeaker segmentId newName d)),
                                   fullText := dash_fullText (fst (handleRenameSpeaker segmentId newName d))\<rparr>)
                          (activeRecording d))"
proof (intro conjI impI)
  assume "trim newName = []"
  then show "handleRenameSpeaker segmentId newName d = (d\<lparr>editingSpeakerId := None\<rparr>, None)"
    by (simp add: handleRenameSpeaker_def)
next
  assume a: "trim newName \<noteq> [] \<and> find (\<lambda>s. seg_id s = segmentId) (dash_transcript d) = Some anchor"
  then show "dash_transcript (fst (handleRenameSpeaker segmentId newName d))
           = map (\<lambda>seg. if speaker seg = speaker anchor then seg\<lparr>speaker := Some newName\<rparr> else seg)
                 (dash_transcript d)"
    by (simp add: handleRenameSpeaker_def Let_def)
  from a show "dash_fullText (fst (handleRenameSpeaker segmentId newName d))
             = join newline (map (\<lambda>s. ''['' @ timestamp s @ ''] ''
                                        @ (case speaker s of None \<Rightarrow> ''undefined'' | Some l \<Rightarrow> l)
                                        @ '': '' @ seg_text s)
                                 (dash_transcript (fst (handleRenameSpeaker segmentId newName d))))"
    by (simp add: handleRenameSpeaker_def Let_def renameLine_format)
  from a show "activeRecording (fst (handleRenameSpeaker segmentId newName d)) = activeRecording d"
    by (simp add: handleRenameSpeaker_def Let_def)
  from a show "editingSpeakerId (fst (handleRenameSpeaker segmentId newName d)) = None"
    by (simp add: handleRenameSpeaker_def Let_def)
  from a show "snd (handleRenameSpeaker segmentId newName d)
             = map_option (\<lambda>r. r\<lparr>transcript := dash_transcript (fst (handleRenameSpeaker segmentId newName d)),
                                   fullText := dash_fullText (fst (handleRenameSpeaker segmentId newName d))\<rparr>)
                          (activeRecording d)"
    by (simp add: handleRenameSpeaker_def Let_def split: option.splits)
qed

theorem rename_speaker_witness:
  "trim [CHR '' '', CHR 0xA0, CHR 0x09] = []
   \<and> handleRenameSpeaker ''seg-0-17'' [CHR '' '', CHR 0xA0, CHR 0x09] sampleDashboard
       = (sampleDashboard\<lparr>editingSpeakerId := None\<rparr>, None)
   \<and> trim ''Asha'' \<noteq> []
   \<and> find (\<lambda>s. seg_id s = ''seg-0-17'') (dash_transcript sampleDashboard) = Some (hd sampleTranscript)
   \<and> map speaker (dash_transcript (fst (handleRenameSpeaker ''seg-0-17'' ''Asha'' sampleDashboard)))
       = [Some ''Asha'', Some ''Speaker 2'', Some ''Asha'']
   \<and> dash_fullText (fst (handleRenameSpeaker ''seg-0-17'' ''Asha'' sampleDashboard))
       = ''[00:01] Asha: Hello'' @ newline @ ''[00:05] Speaker 2: Namaste''
           @ newline @ ''[00:09] Asha: Shall we start''"
proof -
  have h0: "trim [CHR '' '', CHR 0xA0, CHR 0x09] = []" by (simp add: trim_def isWhiteSpace_def)
  from h0 rename_speaker [of "[CHR '' '', CHR 0xA0, CHR 0x09]" "''seg-0-17''" sampleDashboard]
  have blank: "handleRenameSpeaker ''seg-0-17'' [CHR '' '', CHR 0xA0, CHR 0x09] sampleDashboard
       = (sampleDashboard\<lparr>editingSpeakerId := None\<rparr>, None)"
    by blast
  have h1: "trim ''Asha'' \<noteq> []" by (simp add: trim_def isWhiteSpace_def)
  have h2: "find (\<lambda>s. seg_id s = ''seg-0-17'') (dash_transcript sampleDashboard) = Some (hd sampleTranscript)"
    by (simp add: sampleDashboard_def sampleTranscript_def)
  have t: "dash_transcript sampleDashboard = sampleTranscript" by (simp add: sampleDashboard_def)
  from h1 h2 rename_speaker [of "''Asha''" "''seg-0-17''" sampleDashboard "hd sampleTranscript"]
  have tr: "dash_transcript (fst (handleRenameSpeaker ''seg-0-17'' ''Asha'' sampleDashboard))
           = map (\<lambda>seg. if speaker seg = speaker (hd sampleTranscript) then seg\<lparr>speaker := Some ''Asha''\<rparr> else seg)
                 sampleTranscript"
    and ft: "dash_fullText (fst (handleRenameSpeaker ''seg-0-17'' ''Asha'' sampleDashboard))
             = join newline (map (\<lambda>s. ''['' @ timestamp s @ ''] ''
                                        @ (case speaker s of None \<Rightarrow> ''undefined'' | Some l \<Rightarrow> l)
                                        @ '': '' @ seg_text s)
                                 (dash_transcript (fst (handleRenameSpeaker ''seg-0-17'' ''Asha'' sampleDashboard))))"
    by (simp_all add: t)
  have sp: "map speaker (dash_transcript (fst (handleRenameSpeaker ''seg-0-17'' ''Asha'' sampleDashboard)))
       = [Some ''Asha'', Some ''Speaker 2'', Some ''Asha'']"
    unfolding tr by (simp add: sampleTranscript_def)
  have "dash_fullText (fst (handleRenameSpeaker ''seg-0-17'' ''Asha'' sampleDashboard))
       = ''[00:01] Asha: Hello'' @ newline @ ''[00:05] Speaker 2: Namaste''
           @ newline @ ''[00:09] Asha: Shall we start''"
    unfolding ft tr by (simp add: sampleTranscript_def)
  with h0 blank h1 h2 sp show ?thesis by simp
qed

text \<open>
  The claim as the specification words it fails on a blank new name: the handler only
  closes the editor, no segment is renamed and no Recording is updated.
\<close>

theorem rename_blank_counterexample:
  "dash_transcript sampleDashboard = sampleTranscript
   \<and> seg_id (sampleTranscript ! 0) = ''seg-0-17''
   \<and> map speaker sampleTranscript = [Some ''Speaker 1'', Some ''Speaker 2'', Some ''Speaker 1'']
   \<and> map speaker (dash_transcript (fst (handleRenameSpeaker ''seg-0-17'' ''  '' sampleDashboard)))
       = [Some ''Speaker 1'', Some ''Speaker 2'', Some ''Speaker 1'']
   \<and> snd (handleRenameSpeaker ''seg-0-17'' ''  '' sampleDashboard) = None"
  by (simp add: handleRenameSpeaker_def trim_def isWhiteSpace_def sampleDashboard_def sampleTranscript_def)

lemma map_rec_id_update:
  "map rec_id (map (\<lambda>r. if rec_id r = rec_id u then u else r) rs) = map rec_id rs"
  by (induction rs) simp_all

lemma replace_by_id:
  assumes "distinct (map rec_id rs)" and "i < length rs" and "rec_id u = rec_id (rs ! i)"
  shows "map (\<lambda>r. if rec_id r = rec_id u then u else r) rs = rs[i := u]"
proof (rule nth_equalityI)
  show "length (map (\<lambda>r. if rec_id r = rec_id u then u else r) rs) = length (rs[i := u])" by simp
next
  fix j assume "j < length (map (\<lambda>r. if rec_id r = rec_id u then u else r) rs)"
  then have j: "j < length rs" by simp
  with assms have "rec_id (rs ! j) = rec_id (rs ! i) \<longleftrightarrow> j = i"
    using nth_eq_iff_index_eq [of "map rec_id rs" j i] by simp
  with j assms(2,3) show "map (\<lambda>r. if rec_id r = rec_id u then u else r) rs ! j = rs[i := u] ! j"
    by (auto simp: nth_list_update)
qed

lemma remove_by_id:
  "distinct (map rec_id rs) \<Longrightarrow> i < length rs \<Longrightarrow>
   filter (\<lambda>r. rec_id r \<noteq> rec_id (rs ! i)) rs = take i rs @ drop (Suc i) rs"
proof (induction rs arbitrary: i)
  case Nil
  then show ?case by simp
next
  case (Cons a rs)
  show ?case
  proof (cases i)
    case 0
    from Cons.prems have "rec_id a \<notin> rec_id ` set rs" by simp
    then have "\<forall>r \<in> set rs. rec_id r \<noteq> rec_id a" by (metis imageI)
    then have "filter (\<lambda>r. rec_id r \<noteq> rec_id a) rs = rs" by (simp add: filter_id_conv)
    with 0 show ?thesis by simp
  next
    case (Suc k)
    with Cons.prems have k: "k < length rs" and d: "distinct (map rec_id rs)" by simp_all
    from Cons.prems have "rec_id a \<notin> rec_id ` set rs" by simp
    with k have "rec_id a \<noteq> rec_id (rs ! k)" by (metis nth_mem imageI)
    with Suc Cons.IH [OF d k] show ?thesis by simp
  qed
qed

lemma store_ids_preserved:
  "distinct (map rec_id (recordings s)) \<Longrightarrow> distinct (map rec_id (recordings (updateRecording u s)))"
  "distinct (map rec_id (recordings s)) \<Longrightarrow> distinct (map rec_id (recordings (deleteRecording ident s)))"
  "distinct (map rec_id (recordings s)) \<Longrightarrow> uuid \<notin> set (map rec_id (recordings s)) \<Longrightarrow>
     distinct (map rec_id (recordings (snd (addRecording uuid created r s))))"
  by (simp_all add: updateRecording_def deleteRecording_def addRecording_def Let_def
        map_rec_id_update distinct_map_filter del: map_map)

text \<open>
  C9. In a store whose Recordings have distinct identifiers, toggling the bookmark of the
  Recording at a position of the store replaces it by the same Recording with the flag
  negated (an unset flag counts as false) and every other field as before, and leaves
  every other Recording of the store as it is.
\<close>

theorem toggleBookmark_frame:
  assumes "distinct (map rec_id (recordings s))" and "i < length (recordings s)"
  shows "recordings (toggleBookmark (recordings s ! i) s)
           = (recordings s)[i := (recordings s ! i)\<lparr>isBookmarked := Some (\<not> truthy (isBookmarked (recordings s ! i)))\<rparr>]
         \<and> truthy (isBookmarked (recordings (toggleBookmark (recordings s ! i) s) ! i))
             = (\<not> truthy (isBookmarked (recordings s ! i)))"
proof -
  let ?r = "recordings s ! i"
  let ?u = "?r\<lparr>isBookmarked := Some (\<not> truthy (isBookmarked ?r))\<rparr>"
  have "rec_id ?u = rec_id ?r" by simp
  with assms have "map (\<lambda>r. if rec_id r = rec_id ?u then ?u else r) (recordings s) = (recordings s)[i := ?u]"
    by (rule replace_by_id)
  then have eq: "recordings (toggleBookmark ?r s) = (recordings s)[i := ?u]"
    by (simp add: toggleBookmark_def updateRecording_def)
  with assms(2) show ?thesis by (simp add: truthy_def)
qed

theorem toggleBookmark_frame_witness:
  "distinct (map rec_id (recordings storeState))
   \<and> (0::nat) < length (recordings storeState)
   \<and> recordings (toggleBookmark (recordings storeState ! 0) storeState)
       = [sampleRecording\<lparr>isBookmarked := Some True\<rparr>, otherRecording]"
proof -
  have rs: "recordings storeState = [sampleRecording, otherRecording]"
    by (simp add: storeState_def)
  have h1: "distinct (map rec_id (recordings storeState))"
    by (simp add: rs sampleRecording_def otherRecording_def)
  have h2: "(0::nat) < length (recordings storeState)" by (simp add: rs)
  from toggleBookmark_frame [OF h1 h2]
  have "recordings (toggleBookmark (recordings storeState ! 0) storeState)
       = [sampleRecording\<lparr>isBookmarked := Some True\<rparr>, otherRecording]"
    by (simp add: rs truthy_def sampleRecording_def)
  with h1 h2 show ?thesis by simp
qed

text \<open>
  C10. \<open>deleteRecording\<close> keeps, in order and unchanged, exactly the Recordings whose
  identifier differs from the given one; in a store with distinct identifiers that holds
  the identifier, exactly the Recording at its position is removed. The selection is
  cleared when the selected Recording has that identifier and is unchanged otherwise.
\<close>

theorem deleteRecording_exact:
  "recordings (deleteRecording ident s) = filter (\<lambda>r. rec_id r \<noteq> ident) (recordings s)
   \<and> (distinct (map rec_id (recordings s)) \<and> i < length (recordings s) \<and> rec_id (recordings s ! i) = ident
        \<longrightarrow> recordings (deleteRecording ident s) = take i (recordings s) @ drop (Suc i) (recordings s))
   \<and> (selectedRecording s = Some sel \<and> rec_id sel = ident
        \<longrightarrow> selectedRecording (deleteRecording ident s) = None)
   \<and> (selectedRecording s = Some sel \<and> rec_id sel \<noteq> ident
        \<longrightarrow> selectedRecording (deleteRecording ident s) = selectedRecording s)
   \<and> (selectedRecording s = None \<longrightarrow> selectedRecording (deleteRecording ident s) = None)"
proof (intro conjI impI)
  show "recordings (deleteRecording ident s) = filter (\<lambda>r. rec_id r \<noteq> ident) (recordings s)"
    by (simp add: deleteRecording_def)
next
  assume a: "distinct (map rec_id (recordings s)) \<and> i < length (recordings s) \<and> rec_id (recordings s ! i) = ident"
  with remove_by_id [of "recordings s" i]
  have "filter (\<lambda>r. rec_id r \<noteq> ident) (recordings s)
               = take i (recordings s) @ drop (Suc i) (recordings s)"
    by auto
  then show "recordings (deleteRecording ident s) = take i (recordings s) @ drop (Suc i) (recordings s)"
    by (simp add: deleteRecording_def)
next
  assume "selectedRecording s = Some sel \<and> rec_id sel = ident"
  then show "selectedRecording (deleteRecording ident s) = None"
    by (simp add: deleteRecording_def)
next
  assume "selectedRecording s = Some sel \<and> rec_id sel \<noteq> ident"
  then show "selectedRecording (deleteRecording ident s) = selectedRecording s"
    by (simp add: deleteRecording_def)
next
  assume "selectedRecording s = None"
  then show "selectedRecording (deleteRecording ident s) = None"
    by (simp add: deleteRecording_def)
qed

theorem deleteRecording_exact_witness:
  "distinct (map rec_id (recordings storeState)) \<and> (1::nat) < length (recordings storeState)
   \<and> rec_id (recordings storeState ! 1) = ''uuid-old''
   \<and> recordings (deleteRecording ''uuid-old'' storeState) = [sampleRecording]
   \<and> selectedRecording storeState = Some otherRecording \<and> rec_id otherRecording = ''uuid-old''
   \<and> selectedRecording (deleteRecording ''uuid-old'' storeState) = None
   \<and> rec_id otherRecording \<noteq> ''uuid-rec''
   \<and> selectedRecording (deleteRecording ''uuid-rec'' storeState) = Some otherRecording
   \<and> selectedRecording initialState = None
   \<and> selectedRecording (deleteRecording ''uuid-rec'' initialState) = None"
proof -
  have rs: "recordings storeState = [sampleRecording, otherRecording]"
    by (simp add: storeState_def)
  have sel: "selectedRecording storeState = Some otherRecording" by (simp add: storeState_def)
  have ids: "rec_id sampleRecording = ''uuid-rec''" "rec_id otherRecording = ''uuid-old''"
    by (simp_all add: sampleRecording_def otherRecording_def)
  have none: "selectedRecording initialState = None" by (simp add: initialState_def)
  have h: "distinct (map rec_id (recordings storeState)) \<and> (1::nat) < length (recordings storeState)
             \<and> rec_id (recordings storeState ! 1) = ''uuid-old''"
    by (simp add: rs ids)
  from h deleteRecording_exact [of "''uuid-old''" storeState 1 otherRecording]
  have a: "recordings (deleteRecording ''uuid-old'' storeState) = [sampleRecording]"
    by (simp add: rs ids)
  from sel ids deleteRecording_exact [of "''uuid-old''" storeState 1 otherRecording]
  have b: "selectedRecording (deleteRecording ''uuid-old'' storeState) = None" by blast
  from sel ids deleteRecording_exact [of "''uuid-rec''" storeState 0 otherRecording]
  have c: "selectedRecording (deleteRecording ''uuid-rec'' storeState) = Some otherRecording" by simp
  from none deleteRecording_exact [of "''uuid-rec''" initialState 0 otherRecording]
  have d: "selectedRecording (deleteRecording ''uuid-rec'' initialState) = None" by blast
  from h a b c d sel ids none show ?thesis by simp
qed


end
